theory Spec2Isabelle
  imports Main "HOL-Library.State_Monad"
begin

section \<open>The label-variable encoding of \<open>saf/theories.py\<close>\<close>

subsection \<open>Labels\<close>

text \<open>
  Modelled from the spec: the enumeration \<open>Label\<close> of \<open>saf.argument\<close> is imported by
  \<open>saf/theories.py\<close> but its declaration is not part of the source at hand. The spec gives
  it exactly three members \<open>In\<close>, \<open>Out\<close>, \<open>Und\<close>, each with a fixed, distinct, small offset,
  the \<open>In\<close> offset being position 1 (1-based) of every block of three label variables.
  The code adds a label to an integer and takes \<open>len(Label)\<close>, so the members are
  integer-valued; they are numbered 1, 2, 3 in declaration order. \<open>str_Label\<close> is the text
  \<open>str(label)\<close> that \<open>_argToLabelVar\<close> puts into its cache key, the qualified member name.
\<close>

datatype Label = In | Out | Und

fun offset :: "Label \<Rightarrow> int" where
  "offset In = 1"
| "offset Out = 2"
| "offset Und = 3"

definition len_Label :: int where
  "len_Label = 3"

fun str_Label :: "Label \<Rightarrow> string" where
  "str_Label In = ''Label.In''"
| "str_Label Out = ''Label.Out''"
| "str_Label Und = ''Label.Und''"

subsection \<open>Python's \<open>str\<close> on integers\<close>

text \<open>
  \<open>str(n)\<close> for a Python \<open>int\<close>: the decimal digits, most significant first, after a
  minus sign when the number is negative.
\<close>

definition digit_char :: "nat \<Rightarrow> char" where
  "digit_char d = char_of (48 + d)"

fun str_nat :: "nat \<Rightarrow> string" where
  "str_nat n = (if n < 10 then [digit_char n] else str_nat (n div 10) @ [digit_char (n mod 10)])"

declare str_nat.simps [simp del]

definition str_int :: "int \<Rightarrow> string" where
  "str_int i = (if i < 0 then CHR ''-'' # str_nat (nat (- i)) else str_nat (nat i))"

subsection \<open>The allocator and its memo table\<close>

text \<open>
  \<open>_calculateLabelVar\<close> is the arithmetic; \<open>_argToLabelVar\<close> looks the pair up in the
  module-level dictionary \<open>_label_var_cache\<close> under the key \<open>f'{str(label)}-{str(arg_value)}'\<close>
  and stores the computed value on a miss. The dictionary is the only state of the module;
  it is threaded through every function that reaches the allocator.
\<close>

definition calculateLabelVar :: "int \<Rightarrow> Label \<Rightarrow> int" where
  "calculateLabelVar arg_value label = len_Label * (arg_value - 1) + offset label"

type_synonym cache = "string \<rightharpoonup> int"

definition label_key :: "Label \<Rightarrow> int \<Rightarrow> string" where
  "label_key label arg_value = str_Label label @ ''-'' @ str_int arg_value"

definition argToLabelVar :: "int \<Rightarrow> Label \<Rightarrow> (cache, int) state" where
  "argToLabelVar arg_value label = State (\<lambda>c.
     (case c (label_key label arg_value) of
        None \<Rightarrow> (let label_var = calculateLabelVar arg_value label
                 in (label_var, c(label_key label arg_value \<mapsto> label_var)))
      | Some v \<Rightarrow> (v, c)))"

definition inLab :: "int \<Rightarrow> (cache, int) state" where
  "inLab arg_value = argToLabelVar arg_value In"

definition outLab :: "int \<Rightarrow> (cache, int) state" where
  "outLab arg_value = argToLabelVar arg_value Out"

definition undLab :: "int \<Rightarrow> (cache, int) state" where
  "undLab arg_value = argToLabelVar arg_value Und"

text \<open>
  The caches the running program can hold: the empty dictionary the module starts with,
  and whatever a call of the allocator leaves behind.
\<close>

inductive reachable :: "cache \<Rightarrow> bool" where
  start: "reachable Map.empty"
| call: "reachable c \<Longrightarrow> reachable (snd (run_state (argToLabelVar a l) c))"

subsection \<open>The framework interface\<close>

text \<open>
  Modelled from the spec: the class \<open>FrameworkRepresentation\<close> of \<open>saf.framework\<close> is an
  external collaborator whose code is not part of the source at hand. The encoder uses four
  read-only queries of it: \<open>len(framework)\<close>, \<open>getArguments()\<close>, \<open>getAttackers(a)\<close> and
  \<open>getAttackedBy(a)\<close> (the arguments that \<open>a\<close> attacks). A framework is the record of the
  answers to these queries; they are pure and never raise.
\<close>

record Framework =
  len_framework :: int
  getArguments :: "int list"
  getAttackers :: "int \<Rightarrow> int list"
  getAttackedBy :: "int \<Rightarrow> int list"

text \<open>
  What the spec's data model says of a framework: \<open>size()\<close> is the number of arguments,
  the argument ids are unique, attackers and attacked arguments are arguments, and the two
  adjacency queries describe one attack relation (\<open>b\<close> is an attacker of \<open>a\<close> as often as
  \<open>a\<close> is attacked by \<open>b\<close>).
\<close>

definition wf_framework :: "Framework \<Rightarrow> bool" where
  "wf_framework f \<longleftrightarrow>
     len_framework f = int (length (getArguments f)) \<and>
     distinct (getArguments f) \<and>
     (\<forall>a \<in> set (getArguments f).
        set (getAttackers f a) \<subseteq> set (getArguments f) \<and>
        set (getAttackedBy f a) \<subseteq> set (getArguments f)) \<and>
     (\<forall>a \<in> set (getArguments f). \<forall>b \<in> set (getArguments f).
        count_list (getAttackers f a) b = count_list (getAttackedBy f b) a)"

text \<open>The total attack-edge count: the sum of the attacker-list sizes over the arguments.\<close>

definition edge_count :: "Framework \<Rightarrow> nat" where
  "edge_count f = (\<Sum>a \<leftarrow> getArguments f. length (getAttackers f a))"

subsection \<open>Theories\<close>

text \<open>
  A \<open>TheoryTemplate\<close> is a callable from an argument and a framework to a list of clauses;
  every template of the module reaches the allocator, so it runs on the cache.
  \<open>CNFTheory\<close> wraps one template; \<open>generate\<close> calls it, \<open>generateAll\<close> is the loop
  \<open>for arg_val in argument_values: ret_cnf += self.generate(arg_val, framework)\<close>.
\<close>

type_synonym TheoryRepresentation = "int list list"

type_synonym TheoryTemplate = "int \<Rightarrow> Framework \<Rightarrow> (cache, TheoryRepresentation) state"

datatype CNFTheory = CNFTheory (template: TheoryTemplate)

definition fromTemplates :: "TheoryTemplate list \<Rightarrow> CNFTheory list" where
  "fromTemplates templates = map CNFTheory templates"

definition generate :: "CNFTheory \<Rightarrow> int \<Rightarrow> Framework \<Rightarrow> (cache, TheoryRepresentation) state" where
  "generate theory argument_value framework = template theory argument_value framework"

fun generateAll_loop ::
  "CNFTheory \<Rightarrow> int list \<Rightarrow> Framework \<Rightarrow> TheoryRepresentation \<Rightarrow> (cache, TheoryRepresentation) state" where
  "generateAll_loop theory [] framework ret_cnf = State_Monad.return ret_cnf"
| "generateAll_loop theory (arg_val # rest) framework ret_cnf = do {
     new \<leftarrow> generate theory arg_val framework;
     generateAll_loop theory rest framework (ret_cnf @ new)
   }"

definition generateAll ::
  "CNFTheory \<Rightarrow> int list \<Rightarrow> Framework \<Rightarrow> (cache, TheoryRepresentation) state" where
  "generateAll theory argument_values framework =
     generateAll_loop theory argument_values framework []"

subsection \<open>The templates of the complete semantics\<close>

text \<open>
  Each template calls the allocator once per literal it writes, left to right, as Python
  evaluates the list displays and comprehensions.
\<close>

definition uniqueness_theory :: TheoryTemplate where
  "uniqueness_theory a f = do {
     i1 \<leftarrow> inLab a; o1 \<leftarrow> outLab a; u1 \<leftarrow> undLab a;
     i2 \<leftarrow> inLab a; o2 \<leftarrow> outLab a;
     i3 \<leftarrow> inLab a; u3 \<leftarrow> undLab a;
     o4 \<leftarrow> outLab a; u4 \<leftarrow> undLab a;
     State_Monad.return [[i1, o1, u1], [- i2, - o2], [- i3, - u3], [- o4, - u4]]
   }"

definition in_complete_1 :: TheoryTemplate where
  "in_complete_1 a f = do {
     outs \<leftarrow> State_Monad.traverse_list
       (\<lambda>attacker. do { v \<leftarrow> outLab attacker; State_Monad.return (- v) }) (getAttackers f a);
     i \<leftarrow> inLab a;
     State_Monad.return [outs @ [i]]
   }"

definition in_complete_2 :: TheoryTemplate where
  "in_complete_2 a f = State_Monad.traverse_list
     (\<lambda>attacked. do { i \<leftarrow> inLab a; v \<leftarrow> outLab attacked; State_Monad.return [- i, v] })
     (getAttackedBy f a)"

definition out_complete_1 :: TheoryTemplate where
  "out_complete_1 a f = State_Monad.traverse_list
     (\<lambda>attacker. do { i \<leftarrow> inLab attacker; v \<leftarrow> outLab a; State_Monad.return [- i, v] })
     (getAttackers f a)"

definition out_complete_2 :: TheoryTemplate where
  "out_complete_2 a f = do {
     ins \<leftarrow> State_Monad.traverse_list inLab (getAttackers f a);
     v \<leftarrow> outLab a;
     State_Monad.return [ins @ [- v]]
   }"

subsection \<open>The DIMACS problem\<close>

record DIMACSHeader =
  vars :: int
  clauses :: int

definition str_DIMACSHeader :: "DIMACSHeader \<Rightarrow> string" where
  "str_DIMACSHeader h =
     ''p cnf '' @ str_int (vars h) @ '' '' @ str_int (clauses h) @ [CHR 0x0A]"

definition incrementClauses :: "DIMACSHeader \<Rightarrow> DIMACSHeader" where
  "incrementClauses h = h\<lparr>clauses := clauses h + 1\<rparr>"

definition setClauses :: "DIMACSHeader \<Rightarrow> int \<Rightarrow> DIMACSHeader" where
  "setClauses h num_of_clauses = h\<lparr>clauses := num_of_clauses\<rparr>"

record DIMACSInput =
  header :: DIMACSHeader
  content :: string

definition new_DIMACSInput :: "int \<Rightarrow> int \<Rightarrow> string \<Rightarrow> DIMACSInput" where
  "new_DIMACSInput num_of_vars num_of_clauses cont =
     \<lparr>header = \<lparr>vars = num_of_vars, clauses = num_of_clauses\<rparr>, content = cont\<rparr>"

definition str_DIMACSInput :: "DIMACSInput \<Rightarrow> string" where
  "str_DIMACSInput d = str_DIMACSHeader (header d) @ content d"

definition addClause :: "DIMACSInput \<Rightarrow> string \<Rightarrow> DIMACSInput" where
  "addClause d dimacs_clause =
     d\<lparr>content := content d @ dimacs_clause, header := incrementClauses (header d)\<rparr>"

subsection \<open>The parser\<close>

text \<open>\<open>sep.join(parts)\<close> of Python's \<open>str\<close>: the parts with \<open>sep\<close> between neighbours.\<close>

fun join :: "string \<Rightarrow> string list \<Rightarrow> string" where
  "join sep [] = []"
| "join sep [x] = x"
| "join sep (x # y # ys) = x @ sep @ join sep (y # ys)"

definition parseCNFTheory :: "TheoryRepresentation \<Rightarrow> string" where
  "parseCNFTheory theory =
     join [CHR 0x0A] (map (\<lambda>clause. join '' '' (map str_int clause) @ '' 0'') theory)
     @ [CHR 0x0A]"

text \<open>
  The loop of \<open>parse\<close> over the parser's theories, on the pair of its two accumulators
  \<open>raw_clauses\<close> and \<open>num_of_clauses\<close>.
\<close>

fun parse_loop ::
  "CNFTheory list \<Rightarrow> int list \<Rightarrow> Framework \<Rightarrow> TheoryRepresentation \<times> int
     \<Rightarrow> (cache, TheoryRepresentation \<times> int) state" where
  "parse_loop [] argument_values framework acc = State_Monad.return acc"
| "parse_loop (theory # rest) argument_values framework (raw_clauses, num_of_clauses) = do {
     new_clauses \<leftarrow> generateAll theory argument_values framework;
     parse_loop rest argument_values framework
       (raw_clauses @ new_clauses, num_of_clauses + int (length new_clauses))
   }"

definition parse :: "CNFTheory list \<Rightarrow> Framework \<Rightarrow> (cache, DIMACSInput) state" where
  "parse theories framework = do {
     (raw_clauses, num_of_clauses) \<leftarrow>
        parse_loop theories (getArguments framework) framework ([], 0);
     State_Monad.return
       (new_DIMACSInput (len_framework framework * len_Label) num_of_clauses
          (parseCNFTheory raw_clauses))
   }"

definition CompleteLabelingDIMACSParser :: "CNFTheory list" where
  "CompleteLabelingDIMACSParser =
     fromTemplates [uniqueness_theory, in_complete_1, in_complete_2,
                    out_complete_1, out_complete_2]"

subsection \<open>Python's \<open>int\<close> on strings, \<open>split\<close> and \<open>range\<close>\<close>

text \<open>
  \<open>int(s)\<close> for a \<open>str\<close>, base 10: surrounding whitespace is dropped, one sign may
  follow, then come decimal digits, where a single underscore may stand between two digits.
  Anything else raises \<open>ValueError\<close>. A \<open>char\<close> is a code point below 256; among these
  the decimal digits are \<open>0\<close> to \<open>9\<close> and the whitespace that \<open>int\<close> drops is
  tab, line feed, vertical tab, form feed, carriage return, space, U+0085 and U+00A0.
  (The interpreter's optional limit on the number of digits is not modelled.)
\<close>

datatype error = ValueError string

definition is_space :: "char \<Rightarrow> bool" where
  "is_space c \<longleftrightarrow> (of_char c :: nat) \<in> {9, 10, 11, 12, 13, 32, 133, 160}"

definition is_digit :: "char \<Rightarrow> bool" where
  "is_digit c \<longleftrightarrow> 48 \<le> (of_char c :: nat) \<and> (of_char c :: nat) \<le> 57"

definition strip :: "string \<Rightarrow> string" where
  "strip s = rev (dropWhile is_space (rev (dropWhile is_space s)))"

fun digits_ok :: "string \<Rightarrow> bool" where
  "digits_ok [] = False"
| "digits_ok [c] = is_digit c"
| "digits_ok (c # d # cs) =
     (is_digit c \<and> (if d = CHR ''_'' then digits_ok cs else digits_ok (d # cs)))"

definition digit_val :: "char \<Rightarrow> nat" where
  "digit_val c = of_char c - 48"

definition nat_of_digits :: "string \<Rightarrow> nat" where
  "nat_of_digits ds = foldl (\<lambda>acc c. 10 * acc + digit_val c) 0 ds"

definition unsigned_int :: "string \<Rightarrow> int option" where
  "unsigned_int body =
     (if digits_ok body then Some (int (nat_of_digits (filter (\<lambda>c. c \<noteq> CHR ''_'') body)))
      else None)"

definition python_int :: "string \<Rightarrow> int option" where
  "python_int s =
     (case strip s of
        [] \<Rightarrow> None
      | c # rest \<Rightarrow>
          if c = CHR ''-'' then map_option uminus (unsigned_int rest)
          else if c = CHR ''+'' then unsigned_int rest
          else unsigned_int (c # rest))"

text \<open>
  \<open>s.split(' ')\<close>: the pieces of \<open>s\<close> between single spaces; two spaces in a row, or a
  space at either end, give an empty piece, and the result is never empty.
\<close>

fun split :: "string \<Rightarrow> string list" where
  "split [] = [[]]"
| "split (c # cs) =
     (if c = CHR '' '' then [] # split cs
      else (case split cs of [] \<Rightarrow> [[c]] | t # ts \<Rightarrow> (c # t) # ts))"

text \<open>The slice \<open>xs[1:-1]\<close>: without the first and the last element.\<close>

definition slice_1_m1 :: "'a list \<Rightarrow> 'a list" where
  "slice_1_m1 xs = butlast (tl xs)"

text \<open>\<open>x in range(start, stop, step)\<close> for an integer \<open>x\<close> and a positive step.\<close>

definition in_range :: "int \<Rightarrow> int \<Rightarrow> int \<Rightarrow> int \<Rightarrow> bool" where
  "in_range start stop step x \<longleftrightarrow> start \<le> x \<and> x < stop \<and> (x - start) mod step = 0"

subsection \<open>Decoding the solver's output\<close>

text \<open>
  \<open>[int(lab_var) for lab_var in tokens]\<close>: the tokens are converted left to right and
  the first one that \<open>int\<close> refuses raises.
\<close>

fun int_all :: "string list \<Rightarrow> error + int list" where
  "int_all [] = Inr []"
| "int_all (t # ts) =
     (case python_int t of
        None \<Rightarrow> Inl (ValueError t)
      | Some v \<Rightarrow> (case int_all ts of Inl e \<Rightarrow> Inl e | Inr vs \<Rightarrow> Inr (v # vs)))"

definition tokens :: "string \<Rightarrow> string list" where
  "tokens sat_output = slice_1_m1 (split sat_output)"

definition extractExtention :: "string \<Rightarrow> error + int list" where
  "extractExtention sat_output =
     (case int_all (tokens sat_output) of
        Inl e \<Rightarrow> Inl e
      | Inr model \<Rightarrow>
          Inr [lab_var \<leftarrow> model.
                 lab_var > 0 \<and> in_range 1 (int (length model)) len_Label \<bar>lab_var\<bar>])"

definition extractLabeling :: "string \<Rightarrow> error + int list" where
  "extractLabeling sat_output =
     (case int_all (tokens sat_output) of
        Inl e \<Rightarrow> Inl e
      | Inr model \<Rightarrow> Inr (filter (\<lambda>x. x > 0) model))"

subsection \<open>Satisfaction of clauses\<close>

text \<open>
  A clause is a disjunction of literals; a literal is a variable id, negated when its sign
  is minus. An assignment gives every variable id a truth value.
\<close>

definition lit_true :: "(int \<Rightarrow> bool) \<Rightarrow> int \<Rightarrow> bool" where
  "lit_true \<sigma> l \<longleftrightarrow> (if l > 0 then \<sigma> l else \<not> \<sigma> (- l))"

definition satisfies :: "(int \<Rightarrow> bool) \<Rightarrow> TheoryRepresentation \<Rightarrow> bool" where
  "satisfies \<sigma> cnf \<longleftrightarrow> (\<forall>clause \<in> set cnf. \<exists>l \<in> set clause. lit_true \<sigma> l)"

subsection \<open>The framework of the concrete scenario\<close>

text \<open>Two arguments, 1 and 2, and one attack: 1 attacks 2.\<close>

definition example_framework :: Framework where
  "example_framework =
     \<lparr>len_framework = 2, getArguments = [1, 2],
      getAttackers = (\<lambda>a. if a = 2 then [1] else []),
      getAttackedBy = (\<lambda>a. if a = 1 then [2] else [])\<rparr>"

text \<open>
  Two inputs on which a parser generates no clause at all: the framework without
  arguments, and the framework of one argument that nothing attacks (for a parser whose
  only theory is in-rule 2).
\<close>

definition empty_framework :: Framework where
  "empty_framework =
     \<lparr>len_framework = 0, getArguments = [], getAttackers = (\<lambda>a. []), getAttackedBy = (\<lambda>a. [])\<rparr>"

definition lone_framework :: Framework where
  "lone_framework =
     \<lparr>len_framework = 1, getArguments = [1], getAttackers = (\<lambda>a. []), getAttackedBy = (\<lambda>a. [])\<rparr>"

text \<open>
  The line the DIMACS format asks for a clause: its literals in decimal, separated by
  single spaces, then \<open> 0\<close> and a line feed.
\<close>

definition clause_line :: "int list \<Rightarrow> string" where
  "clause_line clause = join '' '' (map str_int clause) @ '' 0'' @ [CHR 0x0A]"

subsection \<open>What the cache holds, and what a cached computation returns\<close>

text \<open>
  \<open>cache_ok\<close>: every entry of the dictionary is the value of the formula at the pair its
  key was built from. \<open>computes m v\<close>: started on any cache the program can hold, \<open>m\<close>
  returns \<open>v\<close> and leaves a cache the program can hold.
\<close>

definition cache_ok :: "cache \<Rightarrow> bool" where
  "cache_ok c \<longleftrightarrow> (\<forall>l a v. c (label_key l a) = Some v \<longrightarrow> v = calculateLabelVar a l)"

definition computes :: "(cache, 'a) state \<Rightarrow> 'a \<Rightarrow> bool" where
  "computes m v \<longleftrightarrow>
     (\<forall>c. reachable c \<longrightarrow> fst (run_state m c) = v \<and> reachable (snd (run_state m c)))"

text \<open>
  The clause lists of the five templates written with the formula in place of the cached
  allocator, and the clauses of a whole ruleset: theory by theory, argument by argument.
\<close>

definition uniqueness_clauses :: "int \<Rightarrow> Framework \<Rightarrow> TheoryRepresentation" where
  "uniqueness_clauses a f =
     [[calculateLabelVar a In, calculateLabelVar a Out, calculateLabelVar a Und],
      [- calculateLabelVar a In, - calculateLabelVar a Out],
      [- calculateLabelVar a In, - calculateLabelVar a Und],
      [- calculateLabelVar a Out, - calculateLabelVar a Und]]"

definition in_1_clauses :: "int \<Rightarrow> Framework \<Rightarrow> TheoryRepresentation" where
  "in_1_clauses a f =
     [map (\<lambda>attacker. - calculateLabelVar attacker Out) (getAttackers f a)
      @ [calculateLabelVar a In]]"

definition in_2_clauses :: "int \<Rightarrow> Framework \<Rightarrow> TheoryRepresentation" where
  "in_2_clauses a f =
     map (\<lambda>attacked. [- calculateLabelVar a In, calculateLabelVar attacked Out])
       (getAttackedBy f a)"

definition out_1_clauses :: "int \<Rightarrow> Framework \<Rightarrow> TheoryRepresentation" where
  "out_1_clauses a f =
     map (\<lambda>attacker. [- calculateLabelVar attacker In, calculateLabelVar a Out])
       (getAttackers f a)"

definition out_2_clauses :: "int \<Rightarrow> Framework \<Rightarrow> TheoryRepresentation" where
  "out_2_clauses a f =
     [map (\<lambda>attacker. calculateLabelVar attacker In) (getAttackers f a)
      @ [- calculateLabelVar a Out]]"

definition all_clauses ::
  "(int \<Rightarrow> Framework \<Rightarrow> TheoryRepresentation) list \<Rightarrow> Framework \<Rightarrow> TheoryRepresentation" where
  "all_clauses gs f = concat (map (\<lambda>g. concat (map (\<lambda>a. g a f) (getArguments f))) gs)"

definition complete_clauses :: "Framework \<Rightarrow> TheoryRepresentation" where
  "complete_clauses f =
     all_clauses [uniqueness_clauses, in_1_clauses, in_2_clauses, out_1_clauses, out_2_clauses] f"

section \<open>Properties\<close>

subsection \<open>Decimal text is injective\<close>

lemma digit_val_digit_char: "d < 10 \<Longrightarrow> digit_val (digit_char d) = d"
  by (simp add: digit_val_def digit_char_def)

lemma nat_of_digits_snoc: "nat_of_digits (ds @ [c]) = 10 * nat_of_digits ds + digit_val c"
  by (simp add: nat_of_digits_def)

lemma nat_of_digits_str_nat: "nat_of_digits (str_nat n) = n"
proof (induction n rule: str_nat.induct)
  case (1 n)
  show ?case
  proof (cases "n < 10")
    case True
    then show ?thesis
      by (subst str_nat.simps) (simp add: nat_of_digits_def digit_val_digit_char)
  next
    case False
    then have "nat_of_digits (str_nat (n div 10)) = n div 10"
      using 1 by simp
    with False show ?thesis
      by (subst str_nat.simps) (simp add: nat_of_digits_snoc digit_val_digit_char)
  qed
qed

lemma str_nat_inj: "str_nat m = str_nat n \<Longrightarrow> m = n"
  by (metis nat_of_digits_str_nat)

lemma of_char_digit_char: "d < 10 \<Longrightarrow> of_char (digit_char d) = (48 + d :: nat)"
  by (simp add: digit_char_def)

lemma digit_char_not_dash: "d < 10 \<Longrightarrow> digit_char d \<noteq> CHR ''-''"
proof
  assume "d < 10" and "digit_char d = CHR ''-''"
  then have "(of_char (digit_char d) :: nat) = of_char CHR ''-''" by simp
  with \<open>d < 10\<close> show False by (simp add: of_char_digit_char)
qed

lemma str_nat_no_dash: "CHR ''-'' \<notin> set (str_nat n)"
proof (induction n rule: str_nat.induct)
  case (1 n)
  show ?case
  proof (cases "n < 10")
    case True
    then have "digit_char n \<noteq> CHR ''-''" by (rule digit_char_not_dash)
    with True show ?thesis by (subst str_nat.simps) auto
  next
    case False
    then have "CHR ''-'' \<notin> set (str_nat (n div 10))" using 1 by simp
    moreover have "digit_char (n mod 10) \<noteq> CHR ''-''" by (simp add: digit_char_not_dash)
    ultimately show ?thesis using False by (subst str_nat.simps) auto
  qed
qed

lemma str_nat_not_dash_Cons: "str_nat n \<noteq> CHR ''-'' # ds"
  using str_nat_no_dash [of n] by (metis list.set_intros(1))

lemma str_int_inj: "str_int i = str_int j \<Longrightarrow> i = j"
proof -
  assume eq: "str_int i = str_int j"
  consider "i < 0" "j < 0" | "i < 0" "0 \<le> j" | "0 \<le> i" "j < 0" | "0 \<le> i" "0 \<le> j"
    by linarith
  then show "i = j"
  proof cases
    case 1
    with eq have "nat (- i) = nat (- j)" by (simp add: str_int_def str_nat_inj)
    with 1 show ?thesis by simp
  next
    case 2
    with eq show ?thesis
      using str_nat_not_dash_Cons [of "nat j" "str_nat (nat (- i))"] by (simp add: str_int_def)
  next
    case 3
    with eq show ?thesis
      using str_nat_not_dash_Cons [of "nat i" "str_nat (nat (- j))"] by (simp add: str_int_def)
  next
    case 4
    with eq have "nat i = nat j" by (simp add: str_int_def str_nat_inj)
    with 4 show ?thesis by simp
  qed
qed

lemma label_key_inj: "label_key l a = label_key l' a' \<Longrightarrow> l = l' \<and> a = a'"
  by (cases l; cases l'; simp add: label_key_def str_int_inj)

subsection \<open>The memo table never changes a value\<close>

lemma cache_ok_empty: "cache_ok Map.empty"
  by (simp add: cache_ok_def)

lemma argToLabelVar_value:
  "cache_ok c \<Longrightarrow> fst (run_state (argToLabelVar a l) c) = calculateLabelVar a l"
  by (auto simp: argToLabelVar_def cache_ok_def Let_def split: option.splits)

lemma argToLabelVar_cache_ok:
  assumes "cache_ok c"
  shows "cache_ok (snd (run_state (argToLabelVar a l) c))"
proof (cases "c (label_key l a)")
  case None
  then have "snd (run_state (argToLabelVar a l) c) = c(label_key l a \<mapsto> calculateLabelVar a l)"
    by (simp add: argToLabelVar_def Let_def)
  moreover have "cache_ok (c(label_key l a \<mapsto> calculateLabelVar a l))"
    unfolding cache_ok_def
  proof (intro allI impI)
    fix l' a' v
    assume h: "(c(label_key l a \<mapsto> calculateLabelVar a l)) (label_key l' a') = Some v"
    show "v = calculateLabelVar a' l'"
    proof (cases "label_key l' a' = label_key l a")
      case True
      then have "l' = l \<and> a' = a" by (rule label_key_inj)
      with h True show ?thesis by simp
    next
      case False
      with h have "c (label_key l' a') = Some v" by simp
      with assms show ?thesis by (simp add: cache_ok_def)
    qed
  qed
  ultimately show ?thesis by simp
next
  case (Some v)
  then have "snd (run_state (argToLabelVar a l) c) = c" by (simp add: argToLabelVar_def)
  with assms show ?thesis by simp
qed

lemma reachable_cache_ok: "reachable c \<Longrightarrow> cache_ok c"
  by (induction rule: reachable.induct) (simp_all add: cache_ok_empty argToLabelVar_cache_ok)

lemma computes_argToLabelVar: "computes (argToLabelVar a l) (calculateLabelVar a l)"
  by (simp add: computes_def argToLabelVar_value reachable_cache_ok reachable.call)

lemma computes_return: "computes (State_Monad.return x) x"
  by (simp add: computes_def)

lemma computes_bind:
  assumes "computes m v" and "computes (f v) w"
  shows "computes (State_Monad.bind m f) w"
  unfolding computes_def
proof (intro allI impI)
  fix c :: cache
  assume r: "reachable c"
  obtain x c' where run: "run_state m c = (x, c')" by (cases "run_state m c")
  with assms(1) r have "x = v" and "reachable c'" by (auto simp: computes_def)
  with assms(2) run show
    "fst (run_state (State_Monad.bind m f) c) = w \<and> reachable (snd (run_state (State_Monad.bind m f) c))"
    by (simp add: computes_def)
qed

lemma computes_traverse:
  "(\<And>x. x \<in> set xs \<Longrightarrow> computes (g x) (h x)) \<Longrightarrow>
   computes (State_Monad.traverse_list g xs) (map h xs)"
proof (induction xs)
  case Nil
  show ?case by (simp add: computes_return)
next
  case (Cons x xs)
  have "computes (g x) (h x)" using Cons.prems by simp
  moreover have "computes (State_Monad.traverse_list g xs) (map h xs)"
    using Cons by simp
  ultimately show ?case
    by (auto intro!: computes_bind computes_return)
qed

lemmas computes_lab =
  computes_argToLabelVar [of _ In, folded inLab_def]
  computes_argToLabelVar [of _ Out, folded outLab_def]
  computes_argToLabelVar [of _ Und, folded undLab_def]

lemma computes_uniqueness: "computes (uniqueness_theory a f) (uniqueness_clauses a f)"
  unfolding uniqueness_theory_def uniqueness_clauses_def
  by (intro computes_bind [OF computes_lab(1)] computes_bind [OF computes_lab(2)]
        computes_bind [OF computes_lab(3)] computes_return)

lemma computes_neg_outLab:
  "computes (do { v \<leftarrow> outLab b; State_Monad.return (- v) }) (- calculateLabelVar b Out)"
  by (intro computes_bind [OF computes_lab(2)] computes_return)

lemma computes_in_1: "computes (in_complete_1 a f) (in_1_clauses a f)"
proof -
  have "computes (State_Monad.traverse_list
          (\<lambda>attacker. do { v \<leftarrow> outLab attacker; State_Monad.return (- v) }) (getAttackers f a))
          (map (\<lambda>attacker. - calculateLabelVar attacker Out) (getAttackers f a))"
    by (rule computes_traverse) (rule computes_neg_outLab)
  then show ?thesis
    unfolding in_complete_1_def in_1_clauses_def
    by (rule computes_bind) (intro computes_bind [OF computes_lab(1)] computes_return)
qed

lemma computes_in_2: "computes (in_complete_2 a f) (in_2_clauses a f)"
  unfolding in_complete_2_def in_2_clauses_def
  by (intro computes_traverse computes_bind [OF computes_lab(1)]
        computes_bind [OF computes_lab(2)] computes_return)

lemma computes_out_1: "computes (out_complete_1 a f) (out_1_clauses a f)"
  unfolding out_complete_1_def out_1_clauses_def
  by (intro computes_traverse computes_bind [OF computes_lab(1)]
        computes_bind [OF computes_lab(2)] computes_return)

lemma computes_out_2: "computes (out_complete_2 a f) (out_2_clauses a f)"
proof -
  have "computes (State_Monad.traverse_list inLab (getAttackers f a))
          (map (\<lambda>attacker. calculateLabelVar attacker In) (getAttackers f a))"
    by (rule computes_traverse) (rule computes_lab(1))
  then show ?thesis
    unfolding out_complete_2_def out_2_clauses_def
    by (rule computes_bind) (intro computes_bind [OF computes_lab(2)] computes_return)
qed

lemma computes_generateAll_loop:
  "(\<And>a. a \<in> set args \<Longrightarrow> computes (template th a f) (g a f)) \<Longrightarrow>
   computes (generateAll_loop th args f acc) (acc @ concat (map (\<lambda>a. g a f) args))"
proof (induction args arbitrary: acc)
  case Nil
  show ?case by (simp add: computes_return)
next
  case (Cons a args)
  have "computes (generate th a f) (g a f)"
    using Cons.prems by (simp add: generate_def)
  moreover have "computes (generateAll_loop th args f (acc @ g a f))
                   ((acc @ g a f) @ concat (map (\<lambda>a. g a f) args))"
    using Cons.prems by (intro Cons.IH) simp
  ultimately show ?case
    by (auto intro: computes_bind)
qed

lemma computes_generateAll:
  "(\<And>a. a \<in> set args \<Longrightarrow> computes (template th a f) (g a f)) \<Longrightarrow>
   computes (generateAll th args f) (concat (map (\<lambda>a. g a f) args))"
  using computes_generateAll_loop [of args th f g "[]"] by (simp add: generateAll_def)

lemma computes_parse_loop:
  "list_all2 (\<lambda>th g. \<forall>a \<in> set args. computes (template th a f) (g a f)) ths gs \<Longrightarrow>
   computes (parse_loop ths args f (raw, n))
     (raw @ concat (map (\<lambda>g. concat (map (\<lambda>a. g a f) args)) gs),
      n + int (length (concat (map (\<lambda>g. concat (map (\<lambda>a. g a f) args)) gs))))"
proof (induction ths gs arbitrary: raw n rule: list_all2_induct)
  case Nil
  show ?case by (simp add: computes_return)
next
  case (Cons th ths g gs)
  let ?new = "concat (map (\<lambda>a. g a f) args)"
  have "computes (generateAll th args f) ?new"
    using Cons.hyps(1) by (intro computes_generateAll) simp
  moreover have "computes (parse_loop ths args f (raw @ ?new, n + int (length ?new)))
     ((raw @ ?new) @ concat (map (\<lambda>g. concat (map (\<lambda>a. g a f) args)) gs),
      (n + int (length ?new)) + int (length (concat (map (\<lambda>g. concat (map (\<lambda>a. g a f) args)) gs))))"
    by (rule Cons.IH)
  ultimately show ?case
    by (auto intro: computes_bind simp: add.assoc)
qed

lemma computes_parse:
  assumes "list_all2 (\<lambda>th g. \<forall>a \<in> set (getArguments f). computes (template th a f) (g a f)) ths gs"
  shows "computes (parse ths f)
           (new_DIMACSInput (len_framework f * len_Label) (int (length (all_clauses gs f)))
              (parseCNFTheory (all_clauses gs f)))"
  unfolding parse_def all_clauses_def
  by (rule computes_bind [OF computes_parse_loop [OF assms, of "[]" 0]])
     (simp add: computes_return)

lemma computes_parse_complete:
  "computes (parse CompleteLabelingDIMACSParser f)
     (new_DIMACSInput (len_framework f * len_Label) (int (length (complete_clauses f)))
        (parseCNFTheory (complete_clauses f)))"
  unfolding complete_clauses_def CompleteLabelingDIMACSParser_def fromTemplates_def
  by (rule computes_parse)
     (simp add: computes_uniqueness computes_in_1 computes_in_2 computes_out_1 computes_out_2)

subsection \<open>The allocator\<close>

lemma calculateLabelVar_inj:
  "calculateLabelVar a l = calculateLabelVar a' l' \<Longrightarrow> a = a' \<and> l = l'"
  by (cases l; cases l'; simp add: calculateLabelVar_def len_Label_def; presburger)

lemma allocator_value:
  "reachable c \<Longrightarrow> fst (run_state (argToLabelVar a l) c) = calculateLabelVar a l"
  by (simp add: argToLabelVar_value reachable_cache_ok)

text \<open>
  Claim C2. For every argument id \<open>a \<ge> 1\<close> and every label, on every cache the program
  can hold, the allocator returns \<open>3 * (a - 1) + offset l\<close>; two calls that return the same
  variable id were made with the same argument and the same label; and a repeated call
  with the same pair returns the same integer, on the cache the first call left as on any
  other cache the program can hold.
\<close>

theorem allocator_formula_injective_memo:
  "reachable c \<Longrightarrow> reachable c' \<Longrightarrow> 1 \<le> a \<Longrightarrow> 1 \<le> a' \<Longrightarrow>
   fst (run_state (argToLabelVar a l) c) = 3 * (a - 1) + offset l \<and>
   (fst (run_state (argToLabelVar a l) c) = fst (run_state (argToLabelVar a' l') c')
      \<longrightarrow> a = a' \<and> l = l') \<and>
   fst (run_state (argToLabelVar a l) c') = fst (run_state (argToLabelVar a l) c) \<and>
   fst (run_state (argToLabelVar a l) (snd (run_state (argToLabelVar a l) c)))
     = fst (run_state (argToLabelVar a l) c)"
proof -
  assume c: "reachable c" and c': "reachable c'"
  have later: "reachable (snd (run_state (argToLabelVar a l) c))"
    using c by (rule reachable.call)
  have "fst (run_state (argToLabelVar a l) c) = 3 * (a - 1) + offset l"
    using c by (simp add: allocator_value calculateLabelVar_def len_Label_def)
  moreover have "fst (run_state (argToLabelVar a l) c) = fst (run_state (argToLabelVar a' l') c')
      \<longrightarrow> a = a' \<and> l = l'"
    using c c' by (auto simp: allocator_value dest: calculateLabelVar_inj)
  moreover have "fst (run_state (argToLabelVar a l) c') = fst (run_state (argToLabelVar a l) c)"
    using c c' by (simp add: allocator_value)
  moreover have "fst (run_state (argToLabelVar a l) (snd (run_state (argToLabelVar a l) c)))
     = fst (run_state (argToLabelVar a l) c)"
    using c later by (simp add: allocator_value)
  ultimately show ?thesis by blast
qed

text \<open>
  The theorem at argument 2 and label \<open>Out\<close>, first on the empty cache and then on the
  cache that call has filled.
\<close>

theorem allocator_formula_injective_memo_witness:
  "reachable Map.empty \<and>
   reachable (snd (run_state (argToLabelVar 2 Out) Map.empty)) \<and> 1 \<le> (2::int) \<and>
   fst (run_state (argToLabelVar 2 Out) Map.empty) = 5 \<and>
   fst (run_state (argToLabelVar 2 Out) Map.empty)
     = fst (run_state (argToLabelVar 2 Out) (snd (run_state (argToLabelVar 2 Out) Map.empty)))"
proof -
  have r0: "reachable Map.empty" by (rule reachable.start)
  have r1: "reachable (snd (run_state (argToLabelVar 2 Out) Map.empty))"
    using r0 by (rule reachable.call)
  have a: "1 \<le> (2::int)" by simp
  show ?thesis
    using r0 r1 allocator_formula_injective_memo [OF r0 r1 a a, of Out Out] by simp
qed

text \<open>
  Claim C6, as amended. The allocator has no check of its argument: for every argument id
  below 1 and every label the call returns, and what it returns is the formula's value
  \<open>3 * (a - 1) + offset l\<close>, an integer that is not positive.
\<close>

theorem allocator_below_one:
  "reachable c \<Longrightarrow> a < 1 \<Longrightarrow>
   fst (run_state (argToLabelVar a l) c) = 3 * (a - 1) + offset l \<and>
   fst (run_state (argToLabelVar a l) c) \<le> 0"
proof -
  assume c: "reachable c" and a: "a < 1"
  have v: "fst (run_state (argToLabelVar a l) c) = 3 * (a - 1) + offset l"
    using c by (simp add: allocator_value calculateLabelVar_def len_Label_def)
  have "offset l \<le> 3" by (cases l) simp_all
  with a v show ?thesis by simp
qed

theorem allocator_below_one_witness:
  "reachable Map.empty \<and> (0::int) < 1 \<and>
   fst (run_state (argToLabelVar 0 Und) Map.empty) = 0"
proof -
  have r0: "reachable Map.empty" by (rule reachable.start)
  have a: "(0::int) < 1" by simp
  show ?thesis using r0 allocator_below_one [OF r0 a, of Und] by simp
qed

text \<open>
  Claim C6 as stated fails: called with argument id 0 and label \<open>In\<close> on the empty cache,
  the allocator returns the variable id \<open>-2\<close>.
\<close>

theorem invalid_id_counterexample:
  "fst (run_state (argToLabelVar 0 In) Map.empty) = - 2"
  by (simp add: argToLabelVar_def calculateLabelVar_def len_Label_def)

subsection \<open>The encoder\<close>

lemma length_concat_sum: "length (concat (map g xs)) = (\<Sum>x\<leftarrow>xs. length (g x))"
  by (induction xs) simp_all

lemma sum_list_const: "(\<Sum>x\<leftarrow>xs. (k::nat)) = k * length xs"
  by (induction xs) simp_all

lemma attacked_sum:
  assumes "wf_framework f"
  shows "(\<Sum>a\<leftarrow>getArguments f. length (getAttackedBy f a)) = edge_count f"
proof -
  let ?A = "set (getArguments f)"
  have d: "distinct (getArguments f)" using assms by (simp add: wf_framework_def)
  have sub1: "\<And>a. a \<in> ?A \<Longrightarrow> set (getAttackers f a) \<subseteq> ?A"
    and sub2: "\<And>a. a \<in> ?A \<Longrightarrow> set (getAttackedBy f a) \<subseteq> ?A"
    and cnt: "\<And>a b. a \<in> ?A \<Longrightarrow> b \<in> ?A \<Longrightarrow>
                count_list (getAttackers f a) b = count_list (getAttackedBy f b) a"
    using assms by (simp_all add: wf_framework_def)
  have "edge_count f = (\<Sum>a\<in>?A. length (getAttackers f a))"
    using d by (simp add: edge_count_def sum_list_distinct_conv_sum_set)
  also have "\<dots> = (\<Sum>a\<in>?A. \<Sum>b\<in>?A. count_list (getAttackers f a) b)"
    by (rule sum.cong) (simp_all add: sum_count_set sub1)
  also have "\<dots> = (\<Sum>a\<in>?A. \<Sum>b\<in>?A. count_list (getAttackedBy f b) a)"
    by (intro sum.cong refl) (simp add: cnt)
  also have "\<dots> = (\<Sum>b\<in>?A. \<Sum>a\<in>?A. count_list (getAttackedBy f b) a)"
    by (rule sum.swap)
  also have "\<dots> = (\<Sum>b\<in>?A. length (getAttackedBy f b))"
    by (rule sum.cong) (simp_all add: sum_count_set sub2)
  also have "\<dots> = (\<Sum>a\<leftarrow>getArguments f. length (getAttackedBy f a))"
    using d by (simp add: sum_list_distinct_conv_sum_set)
  finally show ?thesis by simp
qed

lemma length_complete_clauses:
  "length (complete_clauses f) =
     6 * length (getArguments f) + edge_count f
       + (\<Sum>a\<leftarrow>getArguments f. length (getAttackedBy f a))"
  by (simp add: complete_clauses_def all_clauses_def length_concat_sum edge_count_def
      uniqueness_clauses_def in_1_clauses_def in_2_clauses_def out_1_clauses_def
      out_2_clauses_def sum_list_const)

lemma run_computes: "computes m v \<Longrightarrow> reachable c \<Longrightarrow> fst (run_state m c) = v"
  by (simp add: computes_def)

lemma parse_complete_run:
  "reachable c \<Longrightarrow>
   fst (run_state (parse CompleteLabelingDIMACSParser f) c) =
     new_DIMACSInput (len_framework f * len_Label) (int (length (complete_clauses f)))
        (parseCNFTheory (complete_clauses f))"
  using computes_parse_complete [of f] by (simp add: computes_def)

text \<open>
  Claim C3. For every well-formed framework with \<open>N\<close> arguments and \<open>E\<close> attack edges
  (the sum of the attacker-list sizes), on every cache the program can hold, the problem
  that \<open>parse\<close> produces with the complete-semantics ruleset has the header variable count
  \<open>3 * N\<close> and the header clause count \<open>6 * N + 2 * E\<close>.
\<close>

theorem complete_header_counts:
  "wf_framework f \<Longrightarrow> reachable c \<Longrightarrow>
   header (fst (run_state (parse CompleteLabelingDIMACSParser f) c)) =
     \<lparr>vars = 3 * int (length (getArguments f)),
      clauses = 6 * int (length (getArguments f)) + 2 * int (edge_count f)\<rparr>"
proof -
  assume wf: "wf_framework f" and c: "reachable c"
  have "len_framework f = int (length (getArguments f))"
    using wf by (simp add: wf_framework_def)
  moreover have "length (complete_clauses f) = 6 * length (getArguments f) + 2 * edge_count f"
    using attacked_sum [OF wf] by (simp add: length_complete_clauses)
  ultimately show ?thesis
    using c by (simp add: parse_complete_run new_DIMACSInput_def len_Label_def)
qed

theorem complete_header_counts_witness:
  "wf_framework example_framework \<and> reachable Map.empty \<and>
   header (fst (run_state (parse CompleteLabelingDIMACSParser example_framework) Map.empty)) =
     \<lparr>vars = 6, clauses = 14\<rparr>"
proof -
  have wf: "wf_framework example_framework"
    by (simp add: wf_framework_def example_framework_def)
  have r0: "reachable Map.empty" by (rule reachable.start)
  have "edge_count example_framework = 1" "length (getArguments example_framework) = 2"
    by (simp_all add: edge_count_def example_framework_def)
  then show ?thesis
    using wf r0 complete_header_counts [OF wf r0] by simp
qed

text \<open>
  Claim C4. For the framework with the arguments 1 and 2 and the attack of 1 on 2: the
  encoded problem has variable count 6; \<open>In(1)\<close> is variable 1 and \<open>Out(2)\<close> is
  variable 5; in-rule 1 for argument 1 is the unit clause \<open>[In(1)]\<close>; in-rule 2 for
  argument 1 and out-rule 1 for argument 2 are the clause \<open>[-In(1), Out(2)]\<close>; out-rule 2
  for argument 2 is \<open>[In(1), -Out(2)]\<close>; and decoding the assignment in which exactly the
  variables 1 and 5 are true yields the extension \<open>[1]\<close>.
\<close>

theorem concrete_scenario:
  "reachable c \<Longrightarrow>
   vars (header (fst (run_state (parse CompleteLabelingDIMACSParser example_framework) c))) = 6 \<and>
   fst (run_state (inLab 1) c) = 1 \<and>
   fst (run_state (outLab 2) c) = 5 \<and>
   fst (run_state (in_complete_1 1 example_framework) c) = [[1]] \<and>
   fst (run_state (in_complete_2 1 example_framework) c) = [[- 1, 5]] \<and>
   fst (run_state (out_complete_1 2 example_framework) c) = [[- 1, 5]] \<and>
   fst (run_state (out_complete_2 2 example_framework) c) = [[1, - 5]] \<and>
   extractExtention ''v 1 -2 -3 -4 5 -6 0'' = Inr [1]"
proof -
  assume c: "reachable c"
  have "vars (header (fst (run_state (parse CompleteLabelingDIMACSParser example_framework) c))) = 6"
    using c by (simp add: parse_complete_run new_DIMACSInput_def len_Label_def example_framework_def)
  moreover have "fst (run_state (inLab 1) c) = 1"
    using c by (simp add: run_computes [OF computes_lab(1)] calculateLabelVar_def len_Label_def)
  moreover have "fst (run_state (outLab 2) c) = 5"
    using c by (simp add: run_computes [OF computes_lab(2)] calculateLabelVar_def len_Label_def)
  moreover have "fst (run_state (in_complete_1 1 example_framework) c) = [[1]]"
    using c by (simp add: run_computes [OF computes_in_1] in_1_clauses_def
        calculateLabelVar_def len_Label_def example_framework_def)
  moreover have "fst (run_state (in_complete_2 1 example_framework) c) = [[- 1, 5]]"
    using c by (simp add: run_computes [OF computes_in_2] in_2_clauses_def
        calculateLabelVar_def len_Label_def example_framework_def)
  moreover have "fst (run_state (out_complete_1 2 example_framework) c) = [[- 1, 5]]"
    using c by (simp add: run_computes [OF computes_out_1] out_1_clauses_def
        calculateLabelVar_def len_Label_def example_framework_def)
  moreover have "fst (run_state (out_complete_2 2 example_framework) c) = [[1, - 5]]"
    using c by (simp add: run_computes [OF computes_out_2] out_2_clauses_def
        calculateLabelVar_def len_Label_def example_framework_def)
  moreover have "extractExtention ''v 1 -2 -3 -4 5 -6 0'' = Inr [1]"
    by code_simp
  ultimately show ?thesis by blast
qed

theorem concrete_scenario_witness:
  "reachable Map.empty \<and>
   fst (run_state (in_complete_2 1 example_framework) Map.empty) = [[- 1, 5]] \<and>
   fst (run_state (out_complete_2 2 example_framework) Map.empty) = [[1, - 5]]"
  using concrete_scenario [OF reachable.start] reachable.start by simp

lemma in_all_clauses:
  "g \<in> set gs \<Longrightarrow> a \<in> set (getArguments f) \<Longrightarrow> cl \<in> set (g a f) \<Longrightarrow>
   cl \<in> set (all_clauses gs f)"
  by (auto simp: all_clauses_def)

lemma raw_clauses_complete:
  "reachable c \<Longrightarrow>
   fst (fst (run_state (parse_loop CompleteLabelingDIMACSParser (getArguments f) f ([], 0)) c))
     = complete_clauses f"
proof -
  assume c: "reachable c"
  have "list_all2 (\<lambda>th g. \<forall>a \<in> set (getArguments f). computes (template th a f) (g a f))
          CompleteLabelingDIMACSParser
          [uniqueness_clauses, in_1_clauses, in_2_clauses, out_1_clauses, out_2_clauses]"
    by (simp add: CompleteLabelingDIMACSParser_def fromTemplates_def computes_uniqueness
        computes_in_1 computes_in_2 computes_out_1 computes_out_2)
  from run_computes [OF computes_parse_loop [OF this, of "[]" 0] c]
  show ?thesis by (simp add: complete_clauses_def all_clauses_def)
qed

lemma complete_clauses_example:
  "complete_clauses example_framework =
     [[1, 2, 3], [- 1, - 2], [- 1, - 3], [- 2, - 3],
      [4, 5, 6], [- 4, - 5], [- 4, - 6], [- 5, - 6],
      [1], [- 2, 4], [- 1, 5], [- 1, 5], [- 2], [1, - 5]]"
  by (simp add: complete_clauses_def all_clauses_def example_framework_def
      uniqueness_clauses_def in_1_clauses_def in_2_clauses_def out_1_clauses_def
      out_2_clauses_def calculateLabelVar_def len_Label_def)

text \<open>
  Claim C5. For every framework and every argument \<open>a\<close> whose attacker list is empty,
  in-rule 1 generates exactly the unit clause \<open>[In(a)]\<close> and out-rule 2 exactly the unit
  clause \<open>[-Out(a)]\<close>; and when \<open>a \<ge> 1\<close> is an argument of the framework, every assignment
  that satisfies the clauses the complete-semantics ruleset generates makes \<open>In(a)\<close> true
  and \<open>Out(a)\<close> false.
\<close>

theorem unattacked_forced_in:
  "reachable c \<Longrightarrow> getAttackers f a = [] \<Longrightarrow>
   fst (run_state (in_complete_1 a f) c) = [[3 * (a - 1) + 1]] \<and>
   fst (run_state (out_complete_2 a f) c) = [[- (3 * (a - 1) + 2)]] \<and>
   (a \<in> set (getArguments f) \<and> 1 \<le> a \<and>
    satisfies \<sigma> (fst (fst (run_state
        (parse_loop CompleteLabelingDIMACSParser (getArguments f) f ([], 0)) c)))
    \<longrightarrow> \<sigma> (3 * (a - 1) + 1) \<and> \<not> \<sigma> (3 * (a - 1) + 2))"
proof -
  assume c: "reachable c" and none: "getAttackers f a = []"
  have in1: "in_1_clauses a f = [[3 * (a - 1) + 1]]"
    using none by (simp add: in_1_clauses_def calculateLabelVar_def len_Label_def)
  have out2: "out_2_clauses a f = [[- (3 * (a - 1) + 2)]]"
    using none by (simp add: out_2_clauses_def calculateLabelVar_def len_Label_def)
  have forced: "\<sigma> (3 * (a - 1) + 1) \<and> \<not> \<sigma> (3 * (a - 1) + 2)"
    if a: "a \<in> set (getArguments f)" and pos: "1 \<le> a"
      and sat: "satisfies \<sigma> (complete_clauses f)"
  proof -
    have "[3 * (a - 1) + 1] \<in> set (complete_clauses f)"
      unfolding complete_clauses_def
      by (rule in_all_clauses [where g = in_1_clauses and a = a]) (simp_all add: a in1)
    with sat have "lit_true \<sigma> (3 * (a - 1) + 1)" by (auto simp: satisfies_def)
    with pos have 1: "\<sigma> (3 * (a - 1) + 1)" by (simp add: lit_true_def)
    have "[- (3 * (a - 1) + 2)] \<in> set (complete_clauses f)"
      unfolding complete_clauses_def
      by (rule in_all_clauses [where g = out_2_clauses and a = a]) (simp_all add: a out2)
    with sat have "lit_true \<sigma> (- (3 * (a - 1) + 2))" by (auto simp: satisfies_def)
    with pos have 2: "\<not> \<sigma> (3 * (a - 1) + 2)" by (simp add: lit_true_def split: if_splits)
    from 1 2 show ?thesis by simp
  qed
  have "fst (run_state (in_complete_1 a f) c) = [[3 * (a - 1) + 1]]"
    using c in1 by (simp add: run_computes [OF computes_in_1])
  moreover have "fst (run_state (out_complete_2 a f) c) = [[- (3 * (a - 1) + 2)]]"
    using c out2 by (simp add: run_computes [OF computes_out_2])
  ultimately show ?thesis
    using forced c by (simp add: raw_clauses_complete)
qed

theorem unattacked_forced_in_witness:
  "reachable Map.empty \<and> getAttackers example_framework 1 = [] \<and>
   (1::int) \<in> set (getArguments example_framework) \<and>
   satisfies (\<lambda>v. v = 1 \<or> v = 5) (fst (fst (run_state
        (parse_loop CompleteLabelingDIMACSParser (getArguments example_framework)
           example_framework ([], 0)) Map.empty))) \<and>
   fst (run_state (in_complete_1 1 example_framework) Map.empty) = [[1]] \<and>
   fst (run_state (out_complete_2 1 example_framework) Map.empty) = [[- 2]]"
proof -
  have r0: "reachable Map.empty" by (rule reachable.start)
  have none: "getAttackers example_framework 1 = []" by (simp add: example_framework_def)
  have mem: "(1::int) \<in> set (getArguments example_framework)"
    by (simp add: example_framework_def)
  have sat: "satisfies (\<lambda>v. v = 1 \<or> v = 5) (fst (fst (run_state
        (parse_loop CompleteLabelingDIMACSParser (getArguments example_framework)
           example_framework ([], 0)) Map.empty)))"
    by (simp add: raw_clauses_complete [OF r0] complete_clauses_example satisfies_def lit_true_def)
  show ?thesis
    using r0 none mem sat
      unattacked_forced_in [OF r0 none, of "\<lambda>v. v = 1 \<or> v = 5"]
    by simp
qed

subsection \<open>The decoder\<close>

lemma int_all_Inr_iff: "int_all ts = Inr vs \<longleftrightarrow> map python_int ts = map Some vs"
proof (induction ts arbitrary: vs)
  case Nil
  show ?case by auto
next
  case (Cons t ts)
  show ?case
  proof (cases "python_int t")
    case None
    then show ?thesis by (cases vs) auto
  next
    case (Some v)
    show ?thesis
    proof (cases "int_all ts")
      case (Inl e)
      then have "\<And>ws. map python_int ts \<noteq> map Some ws" using Cons.IH by simp
      with Some Inl show ?thesis by (cases vs) auto
    next
      case (Inr ws)
      then have "map python_int ts = map Some ws" using Cons.IH by simp
      with Some Inr show ?thesis by (cases vs) auto
    qed
  qed
qed

lemma int_all_length: "int_all ts = Inr vs \<Longrightarrow> length vs = length ts"
  by (metis int_all_Inr_iff length_map)

lemma int_all_bad_token:
  "t \<in> set ts \<Longrightarrow> python_int t = None \<Longrightarrow>
   \<exists>t'. t' \<in> set ts \<and> python_int t' = None \<and> int_all ts = Inl (ValueError t')"
proof (induction ts)
  case Nil
  then show ?case by simp
next
  case (Cons u ts)
  show ?case
  proof (cases "python_int u")
    case None
    then show ?thesis by auto
  next
    case (Some v)
    with Cons.prems have "t \<in> set ts" by auto
    then obtain t' where "t' \<in> set ts" "python_int t' = None" "int_all ts = Inl (ValueError t')"
      using Cons by blast
    with Some show ?thesis by auto
  qed
qed

text \<open>
  Claim C7. For every solver output in which some token other than the discarded first
  and last ones does not parse as an integer, \<open>extractExtention\<close> and \<open>extractLabeling\<close>
  both fail with the decoding error of a token that does not parse (the \<open>ValueError\<close> that
  \<open>int\<close> raises, which nothing in the module catches); neither returns a result, so no
  token is skipped and no truncated result is returned.
\<close>

theorem malformed_token_raises:
  "t \<in> set (tokens sat_output) \<Longrightarrow> python_int t = None \<Longrightarrow>
   \<exists>t'. t' \<in> set (tokens sat_output) \<and> python_int t' = None \<and>
        extractExtention sat_output = Inl (ValueError t') \<and>
        extractLabeling sat_output = Inl (ValueError t')"
proof -
  assume "t \<in> set (tokens sat_output)" and "python_int t = None"
  then obtain t' where "t' \<in> set (tokens sat_output)" "python_int t' = None"
      "int_all (tokens sat_output) = Inl (ValueError t')"
    using int_all_bad_token by blast
  then show ?thesis
    by (auto simp: extractExtention_def extractLabeling_def)
qed

lemma tokens_malformed_example: "tokens ''s 1 x 2 0'' = [''1'', ''x'', ''2'']"
  by code_simp

theorem malformed_token_raises_witness:
  "''x'' \<in> set (tokens ''s 1 x 2 0'') \<and> python_int ''x'' = None \<and>
   extractExtention ''s 1 x 2 0'' = Inl (ValueError ''x'') \<and>
   extractLabeling ''s 1 x 2 0'' = Inl (ValueError ''x'')"
proof -
  have m: "''x'' \<in> set (tokens ''s 1 x 2 0'')" by (simp add: tokens_malformed_example)
  have n: "python_int ''x'' = None" by code_simp
  from malformed_token_raises [OF m n] obtain t'
    where t': "t' \<in> set (tokens ''s 1 x 2 0'')" "python_int t' = None"
      and e: "extractExtention ''s 1 x 2 0'' = Inl (ValueError t')"
             "extractLabeling ''s 1 x 2 0'' = Inl (ValueError t')"
    by blast
  have "python_int ''1'' \<noteq> None" and "python_int ''2'' \<noteq> None" by code_simp+
  with t' have "t' = ''x''" by (auto simp: tokens_malformed_example)
  with e m n show ?thesis by simp
qed

lemma in_range_In_var:
  "(0 < v \<and> in_range 1 m len_Label \<bar>v\<bar>) \<longleftrightarrow> (\<exists>a\<ge>1. v = calculateLabelVar a In \<and> v < m)"
proof
  assume h: "0 < v \<and> in_range 1 m len_Label \<bar>v\<bar>"
  then have "\<bar>v\<bar> = v" by simp
  with h have "(v - 1) mod 3 = 0" "v < m" "1 \<le> v"
    by (simp_all add: in_range_def len_Label_def)
  then have "v = calculateLabelVar ((v + 2) div 3) In \<and> 1 \<le> (v + 2) div 3"
    unfolding calculateLabelVar_def len_Label_def by (simp; presburger)
  with \<open>v < m\<close> show "\<exists>a\<ge>1. v = calculateLabelVar a In \<and> v < m" by blast
next
  assume "\<exists>a\<ge>1. v = calculateLabelVar a In \<and> v < m"
  then obtain a where "1 \<le> a" "v = 3 * (a - 1) + 1" "v < m"
    by (auto simp: calculateLabelVar_def len_Label_def)
  then show "0 < v \<and> in_range 1 m len_Label \<bar>v\<bar>"
    by (simp add: in_range_def len_Label_def)
qed

text \<open>
  Claim C1, as amended. For every solver output line whose tokens between the first and
  the last all parse as integers, \<open>extractExtention\<close> returns, in the order of the
  assignment, the label-variable ids of the assignment that are the \<open>In\<close> variable
  \<open>3 * (a - 1) + 1\<close> of some argument id \<open>a \<ge> 1\<close> and are smaller than the number of
  assignment tokens. It returns these label-variable ids themselves; it does not map them
  back to argument ids.
\<close>

theorem extension_returns_In_variables:
  "int_all (tokens sat_output) = Inr model \<Longrightarrow>
   extractExtention sat_output =
     Inr [v \<leftarrow> model. \<exists>a\<ge>1. v = calculateLabelVar a In \<and> v < int (length model)]"
  by (simp add: extractExtention_def in_range_In_var)

theorem extension_returns_In_variables_witness:
  "int_all (tokens ''v 1 -2 -3 4 -5 -6 0'') = Inr [1, - 2, - 3, 4, - 5, - 6] \<and>
   extractExtention ''v 1 -2 -3 4 -5 -6 0'' = Inr [1, 4]"
proof -
  have m: "int_all (tokens ''v 1 -2 -3 4 -5 -6 0'') = Inr [1, - 2, - 3, 4, - 5, - 6]"
    by code_simp
  have "extractExtention ''v 1 -2 -3 4 -5 -6 0'' = Inr [1, 4]" by code_simp
  with m extension_returns_In_variables [OF m] show ?thesis by simp
qed

text \<open>
  Claim C1 as stated fails: in the assignment below the arguments 1 and 2 are both \<open>In\<close>;
  the \<open>In\<close> variable of argument 2 is 4, and the decoder returns \<open>[1, 4]\<close>, not the
  argument ids \<open>[1, 2]\<close>.
\<close>

theorem extension_not_argument_ids:
  "extractExtention ''v 1 -2 -3 4 -5 -6 0'' = Inr [1, 4] \<and>
   calculateLabelVar 1 In = 1 \<and> calculateLabelVar 2 In = 4 \<and>
   extractExtention ''v 1 -2 -3 4 -5 -6 0'' \<noteq> Inr [1, 2]"
  by code_simp

text \<open>
  Claim C10. Whenever \<open>extractExtention\<close> returns, every value it returns lies in
  \<open>range(1, M, 3)\<close>, where \<open>M\<close> is the number of tokens left after the first and the
  last are discarded; in particular no positive variable id in an \<open>In\<close> position that is
  \<open>M\<close> or larger is returned.
\<close>

theorem extension_within_token_range:
  "extractExtention sat_output = Inr r \<Longrightarrow>
   (\<forall>v \<in> set r. in_range 1 (int (length (tokens sat_output))) 3 v) \<and>
   (\<forall>v. 0 < v \<and> (v - 1) mod 3 = 0 \<and> int (length (tokens sat_output)) \<le> v \<longrightarrow> v \<notin> set r)"
proof -
  assume r: "extractExtention sat_output = Inr r"
  then obtain model where m: "int_all (tokens sat_output) = Inr model"
    and r_def: "r = [v \<leftarrow> model. v > 0 \<and> in_range 1 (int (length model)) len_Label \<bar>v\<bar>]"
    by (auto simp: extractExtention_def split: sum.splits)
  have len: "length model = length (tokens sat_output)" using m by (rule int_all_length)
  have 1: "\<forall>v \<in> set r. in_range 1 (int (length (tokens sat_output))) 3 v"
    using r_def len by (auto simp: len_Label_def)
  then have "\<forall>v. int (length (tokens sat_output)) \<le> v \<longrightarrow> v \<notin> set r"
    by (auto simp: in_range_def)
  with 1 show ?thesis by blast
qed

text \<open>
  On the output \<open>s 1 4 0\<close> two tokens are left, so \<open>M = 2\<close>: variable 4, the \<open>In\<close>
  variable of argument 2, is assigned true and is left out of the result.
\<close>

theorem extension_within_token_range_witness:
  "extractExtention ''s 1 4 0'' = Inr [1] \<and> tokens ''s 1 4 0'' = [''1'', ''4''] \<and>
   in_range 1 2 3 1 \<and> (0::int) < 4 \<and> (4 - 1) mod 3 = (0::int) \<and> (4::int) \<notin> set [1]"
proof -
  have r: "extractExtention ''s 1 4 0'' = Inr [1]" by code_simp
  have t: "tokens ''s 1 4 0'' = [''1'', ''4'']" by code_simp
  show ?thesis
    using r t extension_within_token_range [OF r] by simp
qed







subsection \<open>The text of the problem\<close>

lemma join_lines:
  "ls \<noteq> [] \<Longrightarrow> join [CHR 0x0A] ls @ [CHR 0x0A] = concat (map (\<lambda>l. l @ [CHR 0x0A]) ls)"
  by (induction "[CHR 0x0A]" ls rule: join.induct) simp_all

lemma parseCNFTheory_lines:
  "theory \<noteq> [] \<Longrightarrow> parseCNFTheory theory = concat (map clause_line theory)"
  by (simp add: parseCNFTheory_def join_lines clause_line_def [abs_def] comp_def)

lemma parseCNFTheory_empty: "parseCNFTheory [] = [CHR 0x0A]"
  by (simp add: parseCNFTheory_def)

lemma parse_loop_count:
  "run_state (parse_loop ths args f (raw, n)) c = ((raw', n'), c') \<Longrightarrow>
   n' - n = int (length raw') - int (length raw)"
proof (induction ths arbitrary: raw n c)
  case Nil
  then show ?case by simp
next
  case (Cons th ths)
  obtain new c1 where g: "run_state (generateAll th args f) c = (new, c1)"
    by (cases "run_state (generateAll th args f) c")
  with Cons.prems have
    "run_state (parse_loop ths args f (raw @ new, n + int (length new))) c1 = ((raw', n'), c')"
    by simp
  from Cons.IH [OF this] show ?case by simp
qed

text \<open>
  For every framework, every list of theories and every cache: the text of the problem is
  the header line, then one line per generated clause when there is at least one clause,
  and a single empty line when there is none.
\<close>

lemma parse_text:
  assumes "run_state (parse_loop ths (getArguments f) f ([], 0)) c = ((raw, n), c')"
  shows "str_DIMACSInput (fst (run_state (parse ths f) c)) =
           ''p cnf '' @ str_int (len_framework f * 3) @ '' '' @ str_int (int (length raw))
           @ [CHR 0x0A] @ (if raw = [] then [CHR 0x0A] else concat (map clause_line raw))"
proof -
  have "n = int (length raw)" using parse_loop_count [OF assms] by simp
  then show ?thesis
    using assms
    by (simp add: parse_def str_DIMACSInput_def str_DIMACSHeader_def new_DIMACSInput_def
        len_Label_def parseCNFTheory_lines parseCNFTheory_empty)
qed

text \<open>
  Claim C9 at the inputs where it fails. When no clause is generated, the text that
  \<open>parse\<close> produces is the header line followed by an empty line, where the claim has
  the header line followed by one line per clause, that is by nothing.
\<close>

theorem blank_line_without_clauses:
  "str_DIMACSInput (fst (run_state (parse CompleteLabelingDIMACSParser empty_framework) Map.empty))
     = ''p cnf 0 0'' @ [CHR 0x0A] @ [CHR 0x0A] \<and>
   str_DIMACSInput (fst (run_state (parse [CNFTheory in_complete_2] lone_framework) Map.empty))
     = ''p cnf 3 0'' @ [CHR 0x0A] @ [CHR 0x0A]"
proof -
  have z: "str_int 0 = ''0''" and t: "str_int 3 = ''3''" by code_simp+
  have 1: "str_DIMACSInput (fst (run_state (parse CompleteLabelingDIMACSParser empty_framework) Map.empty))
     = ''p cnf 0 0'' @ [CHR 0x0A] @ [CHR 0x0A]"
    by (simp add: parse_def CompleteLabelingDIMACSParser_def fromTemplates_def generateAll_def
        empty_framework_def new_DIMACSInput_def str_DIMACSInput_def str_DIMACSHeader_def
        parseCNFTheory_def z)
  have 2: "str_DIMACSInput (fst (run_state (parse [CNFTheory in_complete_2] lone_framework) Map.empty))
     = ''p cnf 3 0'' @ [CHR 0x0A] @ [CHR 0x0A]"
    by (simp add: parse_def generateAll_def generate_def in_complete_2_def
        lone_framework_def new_DIMACSInput_def str_DIMACSInput_def str_DIMACSHeader_def
        parseCNFTheory_def len_Label_def z t)
  from 1 2 show ?thesis by simp
qed

end
